theory Spec2Isabelle
  imports Main "HOL-Library.Word"
begin

unbundle bit_operations_syntax

section \<open>Scoreboard controller firmware: data model\<close>

text \<open>
  The firmware keeps its whole state in global variables and in the special function
  registers of the microcontroller. The model collects both in one record that every
  function takes and returns. All the variables are \<^verbatim>\<open>uint8_t\<close> or \<^verbatim>\<open>bool\<close>.

  The serial receiver is the list \<open>rx\<close> of the bytes that have arrived and have not been
  read yet, oldest first; the transmitter is the list \<open>tx\<close> of the bytes written so
  far, oldest first. \<open>display_buffer\<close> is the array \<^verbatim>\<open>display_buffer[6]\<close>: a list that
  has six entries in every state of the firmware (\<open>wf_state\<close> below).

  The table \<^verbatim>\<open>seg_patterns\<close> has ten entries and the code indexes it with values up to
  25, without a check. \<open>past_table\<close> stands for the bytes that lie behind the table in
  memory: \<open>past_table st i\<close> is what the machine finds at \<^verbatim>\<open>seg_patterns[i]\<close> for an
  index \<open>i\<close> above 9. The program says nothing about these bytes and never writes them.
\<close>

type_synonym u8 = "8 word"

record mcu =
  timer_minutes :: u8
  timer_seconds :: u8
  red_score :: u8
  blue_score :: u8
  display_buffer :: "u8 list"
  current_digit :: u8
  match_active :: bool
  red_led_state :: bool
  blue_led_state :: bool
  LATB0 :: bool
  LATB1 :: bool
  LATC :: u8
  LATD :: u8
  TMR0 :: u8
  TMR0IF :: bool
  rx :: "u8 list"
  tx :: "u8 list"
  past_table :: "u8 \<Rightarrow> u8"

text \<open>
  What the C program leaves open is a value of \<open>error\<close>:
  \<^item> \<open>RxStarved\<close>: \<^verbatim>\<open>uart_read\<close> spins on the receive flag and no byte is left in the
    stream, so the call never returns;
  \<^item> \<open>SegIndex\<close>: a read of \<^verbatim>\<open>seg_patterns\<close> past its ten entries, as a checked read
    reports it (the firmware itself has no check and carries on, see
    \<open>update_display_buffer_raw\<close>);
  \<^item> \<open>DigitIndex\<close>: a read of \<^verbatim>\<open>display_buffer\<close> past its entries.
\<close>

datatype error = RxStarved | SegIndex | DigitIndex

definition and_then :: "error + 'a \<Rightarrow> ('a \<Rightarrow> error + 'b) \<Rightarrow> error + 'b" where
  "and_then m f = (case m of Inl e \<Rightarrow> Inl e | Inr x \<Rightarrow> f x)"

abbreviation (input) CMD_UPDATE_SCORE :: u8 where "CMD_UPDATE_SCORE \<equiv> 0x01"
abbreviation (input) CMD_UPDATE_TIMER :: u8 where "CMD_UPDATE_TIMER \<equiv> 0x02"
abbreviation (input) CMD_START_MATCH :: u8 where "CMD_START_MATCH \<equiv> 0x03"
abbreviation (input) CMD_STOP_MATCH :: u8 where "CMD_STOP_MATCH \<equiv> 0x04"
abbreviation (input) CMD_RESET_MATCH :: u8 where "CMD_RESET_MATCH \<equiv> 0x05"
abbreviation (input) CMD_PING :: u8 where "CMD_PING \<equiv> 0x06"
abbreviation (input) CMD_SET_LED :: u8 where "CMD_SET_LED \<equiv> 0x07"
abbreviation (input) START_BYTE :: u8 where "START_BYTE \<equiv> 0xAA"
abbreviation (input) END_BYTE :: u8 where "END_BYTE \<equiv> 0x55"

definition seg_patterns :: "u8 list" where
  "seg_patterns = [0x3F, 0x06, 0x5B, 0x4F, 0x66, 0x6D, 0x7D, 0x07, 0x7F, 0x6F]"

text \<open>The read \<^verbatim>\<open>seg_patterns[i]\<close>, with the bound of the table checked.\<close>

definition seg_at :: "u8 \<Rightarrow> error + u8" where
  "seg_at i = (if unat i < length seg_patterns then Inr (seg_patterns ! unat i) else Inl SegIndex)"

text \<open>
  The function \<^verbatim>\<open>update_display_buffer\<close> is modelled twice, statement by statement:
  \<^item> \<open>update_display_buffer\<close> reads the table through \<open>seg_at\<close> and stops with
    \<open>SegIndex\<close> at the first index above 9: it tells whether a run stays inside the table;
  \<^item> \<open>update_display_buffer_raw\<close> is what the machine does and what the command switch
    calls: it reads the table with no check, stores what it finds, and always returns.
  Where the first returns, the two agree (\<open>update_display_buffer_raw_checked\<close> below).

  One assignment \<^verbatim>\<open>display_buffer[k] = seg_patterns[i]\<close>, with the read checked:
\<close>

definition set_digit :: "nat \<Rightarrow> u8 \<Rightarrow> mcu \<Rightarrow> error + mcu" where
  "set_digit k i st =
     and_then (seg_at i) (\<lambda>p. Inr (st\<lparr>display_buffer := (display_buffer st)[k := p]\<rparr>))"

definition update_display_buffer :: "mcu \<Rightarrow> error + mcu" where
  "update_display_buffer st0 =
     and_then (set_digit 0 (timer_minutes st0 div 10) st0) (\<lambda>st1.
     and_then (set_digit 1 (timer_minutes st1 mod 10) st1) (\<lambda>st2.
     and_then (set_digit 2 (timer_seconds st2 div 10) st2) (\<lambda>st3.
     and_then (set_digit 3 (timer_seconds st3 mod 10) st3) (\<lambda>st4.
     and_then (set_digit 4 (red_score st4 div 10) st4) (\<lambda>st5.
     set_digit 5 (red_score st5 mod 10) st5)))))"

text \<open>The read \<^verbatim>\<open>seg_patterns[i]\<close> as the machine performs it.\<close>

definition seg_read :: "mcu \<Rightarrow> u8 \<Rightarrow> u8" where
  "seg_read st i = (case seg_at i of Inr p \<Rightarrow> p | Inl e \<Rightarrow> past_table st i)"

text \<open>One assignment \<^verbatim>\<open>display_buffer[k] = seg_patterns[i]\<close>, with no check.\<close>

definition store_digit :: "nat \<Rightarrow> u8 \<Rightarrow> mcu \<Rightarrow> mcu" where
  "store_digit k i st = st\<lparr>display_buffer := (display_buffer st)[k := seg_read st i]\<rparr>"

definition update_display_buffer_raw :: "mcu \<Rightarrow> mcu" where
  "update_display_buffer_raw st0 =
     (let st1 = store_digit 0 (timer_minutes st0 div 10) st0;
          st2 = store_digit 1 (timer_minutes st1 mod 10) st1;
          st3 = store_digit 2 (timer_seconds st2 div 10) st2;
          st4 = store_digit 3 (timer_seconds st3 mod 10) st3;
          st5 = store_digit 4 (red_score st4 div 10) st4
      in store_digit 5 (red_score st5 mod 10) st5)"

text \<open>The six table indices that \<open>update_display_buffer\<close> computes, in the order of the code.\<close>

definition display_indices :: "mcu \<Rightarrow> u8 list" where
  "display_indices st =
     [timer_minutes st div 10, timer_minutes st mod 10,
      timer_seconds st div 10, timer_seconds st mod 10,
      red_score st div 10, red_score st mod 10]"

subsection \<open>The serial port\<close>

text \<open>
  \<^verbatim>\<open>uart_read\<close> waits for a byte and returns it. \<^verbatim>\<open>uart_write\<close> waits for the transmitter
  and hands it the byte; the transmitter is taken to become ready.
\<close>

definition uart_read :: "mcu \<Rightarrow> error + (u8 \<times> mcu)" where
  "uart_read st = (case rx st of [] \<Rightarrow> Inl RxStarved | b # bs \<Rightarrow> Inr (b, st\<lparr>rx := bs\<rparr>))"

definition uart_write :: "u8 \<Rightarrow> mcu \<Rightarrow> mcu" where
  "uart_write b st = st\<lparr>tx := tx st @ [b]\<rparr>"

subsection \<open>The command switch of \<^verbatim>\<open>process_uart_command\<close>\<close>

text \<open>
  \<open>data\<close> holds the entries \<^verbatim>\<open>data[0]\<close> to \<^verbatim>\<open>data[data_len - 1]\<close> of the local array,
  the ones the read loop has filled. The switch reads \<^verbatim>\<open>data[0]\<close> and \<^verbatim>\<open>data[1]\<close> only
  under \<^verbatim>\<open>data_len >= 2\<close>. An assignment of a byte to a \<^verbatim>\<open>bool\<close> stores whether the
  byte is not zero. An opcode with no case falls through the switch. No case of the switch
  can fail, so every result is an \<open>Inr\<close>; the sum type is that of the pass around it.
\<close>

definition process_command :: "u8 \<Rightarrow> u8 \<Rightarrow> u8 list \<Rightarrow> mcu \<Rightarrow> error + mcu" where
  "process_command cmd data_len data st =
     (if cmd = CMD_UPDATE_SCORE then
        (if 2 \<le> data_len
         then Inr (update_display_buffer_raw
                     (st\<lparr>red_score := data ! 0, blue_score := data ! 1\<rparr>))
         else Inr st)
      else if cmd = CMD_UPDATE_TIMER then
        (if 2 \<le> data_len
         then Inr (update_display_buffer_raw
                     (st\<lparr>timer_minutes := data ! 0, timer_seconds := data ! 1\<rparr>))
         else Inr st)
      else if cmd = CMD_START_MATCH then
        Inr (st\<lparr>match_active := True, red_led_state := True, blue_led_state := True\<rparr>)
      else if cmd = CMD_STOP_MATCH then
        Inr (st\<lparr>match_active := False, red_led_state := False, blue_led_state := False\<rparr>)
      else if cmd = CMD_RESET_MATCH then
        Inr (update_display_buffer_raw
               (st\<lparr>timer_minutes := 2, timer_seconds := 30, red_score := 0, blue_score := 0,
                   match_active := False\<rparr>))
      else if cmd = CMD_PING then
        Inr (uart_write 0x55 (uart_write 0xCC (uart_write 0xAA st)))
      else if cmd = CMD_SET_LED then
        (if 2 \<le> data_len then
           (if data ! 0 = 0x01 then Inr (st\<lparr>red_led_state := (data ! 1 \<noteq> 0)\<rparr>)
            else if data ! 0 = 0x02 then Inr (st\<lparr>blue_led_state := (data ! 1 \<noteq> 0)\<rparr>)
            else Inr st)
         else Inr st)
      else Inr st)"

subsection \<open>The frame decoder of \<^verbatim>\<open>process_uart_command\<close>\<close>

text \<open>
  The loop \<^verbatim>\<open>for (i = 0; i < data_len; i++) data[i] = uart_read();\<close> returns the bytes
  it has stored, in the order of their indices.
\<close>

fun read_data :: "nat \<Rightarrow> mcu \<Rightarrow> error + (u8 list \<times> mcu)" where
  "read_data 0 st = Inr ([], st)"
| "read_data (Suc n) st =
     and_then (uart_read st) (\<lambda>(b, st').
     and_then (read_data n st') (\<lambda>(bs, st''). Inr (b # bs, st'')))"

text \<open>
  What the first part of \<^verbatim>\<open>process_uart_command\<close> hands to its switch: nothing, when one of
  its four \<^verbatim>\<open>return\<close> statements is taken, or the command byte, the length byte and the data.
\<close>

datatype frame_result = Dropped | Command u8 u8 "u8 list"

definition read_frame :: "mcu \<Rightarrow> error + (frame_result \<times> mcu)" where
  "read_frame st0 =
     and_then (uart_read st0) (\<lambda>(start, st1).
     if start \<noteq> START_BYTE then Inr (Dropped, st1) else
     and_then (uart_read st1) (\<lambda>(cmd, st2).
     and_then (uart_read st2) (\<lambda>(data_len, st3).
     if 10 < data_len then Inr (Dropped, st3) else
     and_then (read_data (unat data_len) st3) (\<lambda>(data, st4).
     and_then (uart_read st4) (\<lambda>(checksum, st5).
     and_then (uart_read st5) (\<lambda>(end_byte, st6).
     if end_byte \<noteq> END_BYTE then Inr (Dropped, st6) else
     let calculated_checksum = foldl (XOR) (cmd XOR data_len) data in
     if checksum \<noteq> calculated_checksum then Inr (Dropped, st6) else
     Inr (Command cmd data_len data, st6)))))))"

definition process_uart_command :: "mcu \<Rightarrow> error + mcu" where
  "process_uart_command st =
     and_then (read_frame st) (\<lambda>(r, st').
       case r of
         Dropped \<Rightarrow> Inr st'
       | Command cmd data_len data \<Rightarrow> process_command cmd data_len data st')"

subsection \<open>The main loop\<close>

text \<open>
  One turn of \<^verbatim>\<open>while(1)\<close> in \<^verbatim>\<open>main\<close>: the receive flag is up when a byte waits in the
  receiver; then the two indicator pins are driven.
\<close>

definition main_loop_body :: "mcu \<Rightarrow> error + mcu" where
  "main_loop_body st =
     and_then (if rx st \<noteq> [] then process_uart_command st else Inr st) (\<lambda>st'.
       Inr (if match_active st'
            then st'\<lparr>LATB0 := red_led_state st', LATB1 := blue_led_state st'\<rparr>
            else st'\<lparr>LATB0 := False, LATB1 := False\<rparr>))"

fun main_loop :: "nat \<Rightarrow> mcu \<Rightarrow> error + mcu" where
  "main_loop 0 st = Inr st"
| "main_loop (Suc n) st = and_then (main_loop_body st) (main_loop n)"

text \<open>
  \<^verbatim>\<open>main\<close>, from the state that \<^verbatim>\<open>system_init\<close>, \<^verbatim>\<open>uart_init\<close> and \<^verbatim>\<open>timer0_init\<close>
  leave, through \<open>n\<close> turns of its loop: the display buffer is computed once before the
  loop is entered.
\<close>

definition main :: "nat \<Rightarrow> mcu \<Rightarrow> error + mcu" where
  "main n st = main_loop n (update_display_buffer_raw st)"

text \<open>
  The globals with their initialisers and the registers as \<^verbatim>\<open>system_init\<close> and
  \<^verbatim>\<open>timer0_init\<close> leave them, with nothing received and nothing sent. The bytes behind
  the table are not known; \<open>power_on\<close> takes them as erased program memory (\<open>0xFF\<close>).
  The theorems over every state hold for every content, and of the examples only
  \<open>update_score_after_long_timer\<close> reads one of these bytes.
\<close>

definition power_on :: mcu where
  "power_on =
     \<lparr>timer_minutes = 2, timer_seconds = 30, red_score = 0, blue_score = 0,
      display_buffer = [0, 0, 0, 0, 0, 0], current_digit = 0,
      match_active = False, red_led_state = False, blue_led_state = False,
      LATB0 = False, LATB1 = False, LATC = 0x00, LATD = 0x3F,
      TMR0 = 256 - 156, TMR0IF = False, rx = [], tx = [], past_table = (\<lambda>i. 0xFF)\<rparr>"

text \<open>
  \<open>wf_state\<close>: the display buffer has its six entries. \<open>displayable\<close>: the three values
  that \<open>update_display_buffer\<close> renders have two decimal digits, so that every index into
  the table is inside it.
\<close>

definition wf_state :: "mcu \<Rightarrow> bool" where
  "wf_state st = (length (display_buffer st) = 6)"

definition displayable :: "mcu \<Rightarrow> bool" where
  "displayable st = (timer_minutes st \<le> 99 \<and> timer_seconds st \<le> 99 \<and> red_score st \<le> 99)"

subsection \<open>The timer interrupt\<close>

text \<open>
  \<^verbatim>\<open>LATD = ~(1 << current_digit)\<close> is computed on \<^verbatim>\<open>int\<close> and stored in an eight-bit
  register, which keeps the low eight bits: the complement of the eight-bit shift.
\<close>

definition ISR :: "mcu \<Rightarrow> error + mcu" where
  "ISR st0 =
     (if TMR0IF st0 then
        (let st1 = st0\<lparr>TMR0IF := False\<rparr>;
             st2 = st1\<lparr>TMR0 := 256 - 156\<rparr>;
             st3 = st2\<lparr>LATD := 0x3F\<rparr>
         in if unat (current_digit st3) < length (display_buffer st3) then
              (let st4 = st3\<lparr>LATC := display_buffer st3 ! unat (current_digit st3)\<rparr>;
                   st5 = st4\<lparr>LATD := NOT (push_bit (unat (current_digit st4)) 1)\<rparr>;
                   st6 = st5\<lparr>current_digit := current_digit st5 + 1\<rparr>
               in Inr (if 6 \<le> current_digit st6 then st6\<lparr>current_digit := 0\<rparr> else st6))
            else Inl DigitIndex)
      else Inr st0)"

text \<open>A tick: Timer0 overflows, which raises its flag, and the interrupt routine runs.\<close>

definition tick :: "mcu \<Rightarrow> error + mcu" where
  "tick st = ISR (st\<lparr>TMR0IF := True\<rparr>)"

text \<open>The states after each of \<open>n\<close> ticks in a row.\<close>

fun run_ticks :: "nat \<Rightarrow> mcu \<Rightarrow> error + mcu list" where
  "run_ticks 0 st = Inr []"
| "run_ticks (Suc n) st =
     and_then (tick st) (\<lambda>st'.
     and_then (run_ticks n st') (\<lambda>sts. Inr (st' # sts)))"

text \<open>
  The digit select lines are RD0 to RD5, active low: the digits that a value of
  \<^verbatim>\<open>LATD\<close> turns on.
\<close>

definition enabled_digits :: "u8 \<Rightarrow> nat list" where
  "enabled_digits latd = filter (\<lambda>k. \<not> bit latd k) [0..<6]"

subsection \<open>Frames as the sender builds them\<close>

text \<open>
  The layout the decoder expects on the wire: start byte, command, length, data,
  checksum, end byte; the checksum of a good frame is the exclusive or of the command,
  the length and every data byte.
\<close>

definition xor_all :: "u8 list \<Rightarrow> u8" where
  "xor_all bs = foldr (XOR) bs 0"

definition frame_checksum :: "u8 \<Rightarrow> u8 list \<Rightarrow> u8" where
  "frame_checksum opcode payload = opcode XOR of_nat (length payload) XOR xor_all payload"

definition wire_frame :: "u8 \<Rightarrow> u8 list \<Rightarrow> u8 \<Rightarrow> u8 list" where
  "wire_frame opcode payload checksum =
     [START_BYTE, opcode, of_nat (length payload)] @ payload @ [checksum, END_BYTE]"

subsection \<open>Names for what the proofs talk about\<close>

text \<open>The value that lines 96 to 99 of the interrupt routine leave in \<^verbatim>\<open>current_digit\<close>.\<close>

definition next_digit :: "u8 \<Rightarrow> u8" where
  "next_digit c = (if 6 \<le> c + 1 then 0 else c + 1)"

section \<open>Basic facts\<close>

lemma and_then_Inr [simp]: "and_then (Inr x) f = f x"
  by (simp add: and_then_def)

lemma and_then_Inl [simp]: "and_then (Inl e) f = Inl e"
  by (simp add: and_then_def)

lemma upt_6: "[0..<6] = [0, 1, 2, 3, 4, 5 :: nat]"
  by (simp add: upt_rec)

subsection \<open>Reading from the receiver\<close>

lemma uart_read_Cons [simp]: "uart_read (st\<lparr>rx := b # bs\<rparr>) = Inr (b, st\<lparr>rx := bs\<rparr>)"
  by (simp add: uart_read_def)

lemma uart_read_Inr: "uart_read st = Inr (b, st') \<Longrightarrow> \<exists>bs. st' = st\<lparr>rx := bs\<rparr>"
  by (auto simp add: uart_read_def split: list.splits)

lemma read_data_append:
  "read_data (length bs) (st\<lparr>rx := bs @ rest\<rparr>) = Inr (bs, st\<lparr>rx := rest\<rparr>)"
  by (induction bs arbitrary: st) simp_all

lemma read_data_Inr: "read_data n st = Inr (bs, st') \<Longrightarrow> \<exists>r. st' = st\<lparr>rx := r\<rparr>"
proof (induction n arbitrary: st bs)
  case 0
  then show ?case by (auto intro: exI [of _ "rx st"])
next
  case (Suc n)
  then show ?case
    by (fastforce simp add: and_then_def split: sum.splits prod.splits dest!: uart_read_Inr)
qed

text \<open>The decoder touches nothing but the receiver.\<close>

lemma read_frame_Inr: "read_frame st = Inr (r, st') \<Longrightarrow> \<exists>bs. st' = st\<lparr>rx := bs\<rparr>"
  unfolding read_frame_def
  by (fastforce simp add: and_then_def Let_def split: sum.splits prod.splits if_splits
      dest!: uart_read_Inr read_data_Inr)

subsection \<open>The checksum loop\<close>

lemma foldl_xor_all: "foldl (XOR) a bs = a XOR xor_all bs"
  by (induction bs arbitrary: a) (simp_all add: xor_all_def ac_simps)

lemma short_length_u8:
  assumes "length bs \<le> 10"
  shows "unat (of_nat (length bs) :: u8) = length bs" and "\<not> 10 < (of_nat (length bs) :: u8)"
proof -
  show u: "unat (of_nat (length bs) :: u8) = length bs"
    using assms by (simp add: unat_of_nat)
  show "\<not> 10 < (of_nat (length bs) :: u8)"
    using assms u by (simp add: word_less_nat_alt)
qed

subsection \<open>One pass over a frame\<close>

lemma read_frame_wire_frame:
  assumes "length payload \<le> 10"
  shows "read_frame (st\<lparr>rx := wire_frame opcode payload c @ rest\<rparr>) =
           Inr (if c = frame_checksum opcode payload
                then Command opcode (of_nat (length payload)) payload else Dropped,
                st\<lparr>rx := rest\<rparr>)"
proof -
  have rd: "read_data (length payload) (st\<lparr>rx := payload @ c # END_BYTE # rest\<rparr>) =
              Inr (payload, st\<lparr>rx := c # END_BYTE # rest\<rparr>)"
    by (rule read_data_append)
  show ?thesis
    using short_length_u8 [OF assms] rd
    by (simp add: read_frame_def wire_frame_def frame_checksum_def foldl_xor_all xor.assoc)
qed

lemma process_uart_command_wire_frame:
  assumes "length payload \<le> 10"
  shows "process_uart_command (st\<lparr>rx := wire_frame opcode payload c @ rest\<rparr>) =
           (if c = frame_checksum opcode payload
            then process_command opcode (of_nat (length payload)) payload (st\<lparr>rx := rest\<rparr>)
            else Inr (st\<lparr>rx := rest\<rparr>))"
  by (simp add: process_uart_command_def read_frame_wire_frame [OF assms])

lemma read_frame_long:
  assumes "10 < len"
  shows "read_frame (st\<lparr>rx := START_BYTE # opcode # len # rest\<rparr>) = Inr (Dropped, st\<lparr>rx := rest\<rparr>)"
  using assms by (simp add: read_frame_def)

subsection \<open>The segment table\<close>

lemma seg_at_le9: "i \<le> 9 \<Longrightarrow> seg_at i = Inr (seg_patterns ! unat i)"
  by (simp add: seg_at_def seg_patterns_def word_le_nat_alt)

lemma seg_at_gt9: "9 < i \<Longrightarrow> seg_at i = Inl SegIndex"
  by (simp add: seg_at_def seg_patterns_def word_less_nat_alt)

lemma div10_le9: "(x::u8) \<le> 99 \<Longrightarrow> x div 10 \<le> 9"
  by (simp add: word_le_nat_alt unat_div)

lemma div10_gt9: "\<not> (x::u8) \<le> 99 \<Longrightarrow> 9 < x div 10"
  by (simp add: word_le_nat_alt word_less_nat_alt unat_div)

lemma mod10_le9: "(x::u8) mod 10 \<le> 9"
  by (simp add: word_le_nat_alt unat_mod)

lemma seg_at_div10:
  "seg_at (x div 10) = (if x \<le> 99 then Inr (seg_patterns ! unat (x div 10)) else Inl SegIndex)"
  by (simp add: seg_at_le9 seg_at_gt9 div10_le9 div10_gt9)

lemma seg_at_mod10: "seg_at (x mod 10) = Inr (seg_patterns ! unat (x mod 10))"
  by (simp add: seg_at_le9 mod10_le9)

lemma update_display_buffer_displayable:
  assumes "displayable st"
  shows "update_display_buffer st =
           Inr (st\<lparr>display_buffer := (display_buffer st)
                  [0 := seg_patterns ! unat (timer_minutes st div 10),
                   1 := seg_patterns ! unat (timer_minutes st mod 10),
                   2 := seg_patterns ! unat (timer_seconds st div 10),
                   3 := seg_patterns ! unat (timer_seconds st mod 10),
                   4 := seg_patterns ! unat (red_score st div 10),
                   5 := seg_patterns ! unat (red_score st mod 10)]\<rparr>)"
  using assms
  by (simp add: update_display_buffer_def set_digit_def displayable_def seg_at_div10 seg_at_mod10)

lemma update_display_buffer_not_displayable:
  assumes "\<not> displayable st"
  shows "update_display_buffer st = Inl SegIndex"
  using assms
  by (simp add: update_display_buffer_def set_digit_def displayable_def seg_at_div10 seg_at_mod10)

text \<open>The machine's run: what it stores, whatever the indices.\<close>

lemma seg_read_display_buffer [simp]: "seg_read (st\<lparr>display_buffer := db\<rparr>) i = seg_read st i"
  by (simp add: seg_read_def split: sum.splits)

lemma seg_read_le9: "i \<le> 9 \<Longrightarrow> seg_read st i = seg_patterns ! unat i"
  by (simp add: seg_read_def seg_at_le9)

lemma seg_read_gt9: "9 < i \<Longrightarrow> seg_read st i = past_table st i"
  by (simp add: seg_read_def seg_at_gt9)

lemma seg_read_mod10: "seg_read st (x mod 10) = seg_patterns ! unat (x mod 10)"
  by (simp add: seg_read_def seg_at_mod10)

lemma seg_read_div10:
  "seg_read st (x div 10) =
     (if x \<le> 99 then seg_patterns ! unat (x div 10) else past_table st (x div 10))"
  by (simp add: seg_read_def seg_at_div10)

lemma update_display_buffer_raw_eq:
  "update_display_buffer_raw st =
     st\<lparr>display_buffer := (display_buffer st)
          [0 := seg_read st (timer_minutes st div 10),
           1 := seg_patterns ! unat (timer_minutes st mod 10),
           2 := seg_read st (timer_seconds st div 10),
           3 := seg_patterns ! unat (timer_seconds st mod 10),
           4 := seg_read st (red_score st div 10),
           5 := seg_patterns ! unat (red_score st mod 10)]\<rparr>"
  by (simp add: update_display_buffer_raw_def store_digit_def Let_def seg_read_mod10)

text \<open>Where the checked run returns, the machine's run gives the same state.\<close>

lemma update_display_buffer_raw_checked:
  assumes "update_display_buffer st = Inr st'"
  shows "update_display_buffer_raw st = st'"
proof (cases "displayable st")
  case True
  from update_display_buffer_displayable [OF True] assms True show ?thesis
    by (simp add: update_display_buffer_raw_eq seg_read_div10 displayable_def)
next
  case False
  from update_display_buffer_not_displayable [OF False] assms show ?thesis by simp
qed

lemma update_display_buffer_raw_displayable:
  assumes "displayable st"
  shows "update_display_buffer st = Inr (update_display_buffer_raw st)"
  using update_display_buffer_displayable [OF assms] assms
  by (simp add: update_display_buffer_raw_eq seg_read_div10 displayable_def)

lemma update_display_buffer_raw_wf:
  "wf_state (update_display_buffer_raw st) = wf_state st"
  by (simp add: update_display_buffer_raw_eq wf_state_def)

subsection \<open>The command switch, one opcode at a time\<close>

lemma process_command_update_score:
  "process_command CMD_UPDATE_SCORE data_len data st =
     (if 2 \<le> data_len
      then Inr (update_display_buffer_raw (st\<lparr>red_score := data ! 0, blue_score := data ! 1\<rparr>))
      else Inr st)"
  by (simp add: process_command_def)

lemma process_command_update_timer:
  "process_command CMD_UPDATE_TIMER data_len data st =
     (if 2 \<le> data_len
      then Inr (update_display_buffer_raw
                  (st\<lparr>timer_minutes := data ! 0, timer_seconds := data ! 1\<rparr>))
      else Inr st)"
  by (simp add: process_command_def)

lemma process_command_start_match:
  "process_command CMD_START_MATCH data_len data st =
     Inr (st\<lparr>match_active := True, red_led_state := True, blue_led_state := True\<rparr>)"
  by (simp add: process_command_def)

lemma process_command_stop_match:
  "process_command CMD_STOP_MATCH data_len data st =
     Inr (st\<lparr>match_active := False, red_led_state := False, blue_led_state := False\<rparr>)"
  by (simp add: process_command_def)

lemma process_command_reset_match:
  "process_command CMD_RESET_MATCH data_len data st =
     Inr (update_display_buffer_raw
            (st\<lparr>timer_minutes := 2, timer_seconds := 30, red_score := 0, blue_score := 0,
                match_active := False\<rparr>))"
  by (simp add: process_command_def)

lemma process_command_ping:
  "process_command CMD_PING data_len data st = Inr (st\<lparr>tx := tx st @ [0xAA, 0xCC, 0x55]\<rparr>)"
  by (simp add: process_command_def uart_write_def)

lemma process_command_set_led:
  "process_command CMD_SET_LED data_len data st =
     (if 2 \<le> data_len then
        (if data ! 0 = 0x01 then Inr (st\<lparr>red_led_state := (data ! 1 \<noteq> 0)\<rparr>)
         else if data ! 0 = 0x02 then Inr (st\<lparr>blue_led_state := (data ! 1 \<noteq> 0)\<rparr>)
         else Inr st)
      else Inr st)"
  by (simp add: process_command_def)

lemma process_command_unknown:
  assumes "cmd \<noteq> 1" "cmd \<noteq> 2" "cmd \<noteq> 3" "cmd \<noteq> 4" "cmd \<noteq> 5" "cmd \<noteq> 6" "cmd \<noteq> 7"
  shows "process_command cmd data_len data st = Inr st"
  using assms by (simp add: process_command_def)

text \<open>The switch always returns, and it keeps the six entries of the display buffer.\<close>

lemma process_command_returns:
  "\<exists>st'. process_command cmd data_len data st = Inr st' \<and> wf_state st' = wf_state st"
proof -
  consider "cmd = 1" | "cmd = 2" | "cmd = 3" | "cmd = 4" | "cmd = 5" | "cmd = 6" | "cmd = 7"
    | "cmd \<noteq> 1" "cmd \<noteq> 2" "cmd \<noteq> 3" "cmd \<noteq> 4" "cmd \<noteq> 5" "cmd \<noteq> 6" "cmd \<noteq> 7"
    by blast
  then show ?thesis
  proof cases
    case 1
    then show ?thesis
      by (simp add: process_command_update_score update_display_buffer_raw_wf)
        (simp add: wf_state_def)
  next
    case 2
    then show ?thesis
      by (simp add: process_command_update_timer update_display_buffer_raw_wf)
        (simp add: wf_state_def)
  next
    case 3
    then show ?thesis by (simp add: process_command_start_match wf_state_def)
  next
    case 4
    then show ?thesis by (simp add: process_command_stop_match wf_state_def)
  next
    case 5
    then show ?thesis
      by (simp add: process_command_reset_match update_display_buffer_raw_wf)
        (simp add: wf_state_def)
  next
    case 6
    then show ?thesis by (simp add: process_command_ping wf_state_def)
  next
    case 7
    then show ?thesis by (simp add: process_command_set_led wf_state_def)
  next
    case 8
    from process_command_unknown [OF 8] show ?thesis by simp
  qed
qed

subsection \<open>What every state of the firmware satisfies\<close>

text \<open>
  A pass that returns keeps the six entries of the display buffer, and so does a turn of
  the main loop: \<open>wf_state\<close> holds in every state that the firmware reaches from
  \<open>power_on\<close>.
\<close>

lemma process_uart_command_invariant:
  assumes "process_uart_command st = Inr st'" and "wf_state st"
  shows "wf_state st'"
proof -
  from assms(1) obtain r st1 where rf: "read_frame st = Inr (r, st1)"
    and pc: "(case r of Dropped \<Rightarrow> Inr st1
              | Command cmd data_len data \<Rightarrow> process_command cmd data_len data st1) = Inr st'"
    by (auto simp add: process_uart_command_def and_then_def split: sum.splits)
  from read_frame_Inr [OF rf] obtain bs where st1: "st1 = st\<lparr>rx := bs\<rparr>" ..
  with assms(2) have inv1: "wf_state st1"
    by (simp add: wf_state_def)
  show ?thesis
  proof (cases r)
    case Dropped
    with pc inv1 show ?thesis by simp
  next
    case (Command cmd data_len data)
    with pc have "process_command cmd data_len data st1 = Inr st'" by simp
    with process_command_returns [of cmd data_len data st1] inv1 show ?thesis by auto
  qed
qed

lemma main_loop_body_invariant:
  assumes "main_loop_body st = Inr st'" and "wf_state st"
  shows "wf_state st'"
proof -
  from assms(1) obtain s where
    s: "(if rx st \<noteq> [] then process_uart_command st else Inr st) = Inr s" and
    st': "st' = (if match_active s
            then s\<lparr>LATB0 := red_led_state s, LATB1 := blue_led_state s\<rparr>
            else s\<lparr>LATB0 := False, LATB1 := False\<rparr>)"
    by (auto simp add: main_loop_body_def and_then_def split: sum.splits)
  have "wf_state s"
  proof (cases "rx st \<noteq> []")
    case True
    with s have "process_uart_command st = Inr s" by simp
    from process_uart_command_invariant [OF this assms(2)] show ?thesis .
  next
    case False
    with s assms(2) show ?thesis by simp
  qed
  with st' show ?thesis by (simp add: wf_state_def)
qed

lemma power_on_invariant: "wf_state power_on \<and> displayable power_on"
  by (simp add: wf_state_def displayable_def power_on_def)

subsection \<open>The digit multiplexer\<close>

lemma unat_next_digit:
  assumes "(c::u8) < 6"
  shows "unat (next_digit c) = (unat c + 1) mod 6"
proof -
  from assms have c: "unat c < 6" by (simp add: word_less_nat_alt)
  then have u: "unat (c + 1) = unat c + 1" by (simp add: unat_word_ariths)
  show ?thesis
  proof (cases "6 \<le> c + 1")
    case True
    then have "6 \<le> unat c + 1" using u by (simp add: word_le_nat_alt)
    with c have "unat c = 5" by simp
    with True show ?thesis by (simp add: next_digit_def)
  next
    case False
    then have "unat c + 1 < 6" using u by (simp add: word_le_nat_alt)
    with False u show ?thesis by (simp add: next_digit_def)
  qed
qed

lemma next_digit_less:
  assumes "(c::u8) < 6"
  shows "next_digit c < 6"
  using unat_next_digit [OF assms] by (simp add: word_less_nat_alt)

lemma tick_step:
  assumes "current_digit st < 6" and "wf_state st"
  shows "tick st =
    Inr (st\<lparr>TMR0IF := False, TMR0 := 100,
            LATC := display_buffer st ! unat (current_digit st),
            LATD := NOT (push_bit (unat (current_digit st)) 1),
            current_digit := next_digit (current_digit st)\<rparr>)"
proof -
  from assms have lt: "unat (current_digit st) < length (display_buffer st)"
    by (simp add: word_less_nat_alt wf_state_def)
  show ?thesis
    using lt by (simp add: tick_def ISR_def Let_def next_digit_def)
qed

lemma enabled_digits_select:
  assumes "k < 6"
  shows "enabled_digits (NOT (push_bit k 1)) = [k]"
proof -
  from assms consider "k = 0" | "k = 1" | "k = 2" | "k = 3" | "k = 4" | "k = 5"
    by linarith
  then show ?thesis
    by cases (simp_all add: enabled_digits_def upt_rec bit_simps)
qed

lemma enabled_digits_blank: "enabled_digits 0x3F = []"
  by (simp add: enabled_digits_def upt_rec bit_simps)

lemma run_ticks_cycle:
  assumes "current_digit st < 6" and "wf_state st"
  shows "\<exists>sts. run_ticks n st = Inr sts \<and> length sts = n \<and>
     (\<forall>k<n. LATD (sts ! k) = NOT (push_bit ((unat (current_digit st) + k) mod 6) 1) \<and>
             LATC (sts ! k) = display_buffer st ! ((unat (current_digit st) + k) mod 6) \<and>
             unat (current_digit (sts ! k)) = (unat (current_digit st) + k + 1) mod 6)"
  using assms
proof (induction n arbitrary: st)
  case 0
  then show ?case by simp
next
  case (Suc n)
  let ?c = "unat (current_digit st)"
  let ?st1 = "st\<lparr>TMR0IF := False, TMR0 := 100,
            LATC := display_buffer st ! ?c,
            LATD := NOT (push_bit ?c 1),
            current_digit := next_digit (current_digit st)\<rparr>"
  from Suc.prems have c: "?c < 6" by (simp add: word_less_nat_alt)
  have t: "tick st = Inr ?st1" using Suc.prems by (rule tick_step)
  have c1: "current_digit ?st1 < 6" using next_digit_less [OF Suc.prems(1)] by simp
  have wf1: "wf_state ?st1" using Suc.prems(2) by (simp add: wf_state_def)
  have u1: "unat (current_digit ?st1) = (?c + 1) mod 6"
    using unat_next_digit [OF Suc.prems(1)] by simp
  from Suc.IH [OF c1 wf1] obtain sts where
    r: "run_ticks n ?st1 = Inr sts" and len: "length sts = n" and
    each: "\<forall>k<n. LATD (sts ! k) = NOT (push_bit ((unat (current_digit ?st1) + k) mod 6) 1) \<and>
             LATC (sts ! k) = display_buffer ?st1 ! ((unat (current_digit ?st1) + k) mod 6) \<and>
             unat (current_digit (sts ! k)) = (unat (current_digit ?st1) + k + 1) mod 6"
    by blast
  have shift: "((?c + 1) mod 6 + j) mod 6 = (?c + Suc j) mod 6" for j
    by (simp add: mod_add_left_eq)
  have shift': "((?c + 1) mod 6 + j + 1) mod 6 = (?c + Suc j + 1) mod 6" for j
    by (metis (no_types, opaque_lifting) add.assoc add.commute mod_add_left_eq plus_1_eq_Suc)
  have "run_ticks (Suc n) st = Inr (?st1 # sts)" using t r by simp
  moreover have "length (?st1 # sts) = Suc n" using len by simp
  moreover have "LATD ((?st1 # sts) ! k) = NOT (push_bit ((?c + k) mod 6) 1) \<and>
             LATC ((?st1 # sts) ! k) = display_buffer st ! ((?c + k) mod 6) \<and>
             unat (current_digit ((?st1 # sts) ! k)) = (?c + k + 1) mod 6" if "k < Suc n" for k
  proof (cases k)
    case 0
    with c u1 show ?thesis by simp
  next
    case (Suc j)
    with that have "j < n" by simp
    with each u1 have
      "LATD (sts ! j) = NOT (push_bit (((?c + 1) mod 6 + j) mod 6) 1) \<and>
       LATC (sts ! j) = display_buffer st ! (((?c + 1) mod 6 + j) mod 6) \<and>
       unat (current_digit (sts ! j)) = ((?c + 1) mod 6 + j + 1) mod 6"
      by simp
    then show ?thesis unfolding shift shift' using Suc by simp
  qed
  ultimately show ?case by blast
qed

lemma cyclic_order_covers:
  assumes "c < 6"
  shows "distinct (map (\<lambda>k. (c + k) mod 6) [0..<6]) \<and> set (map (\<lambda>k. (c + k) mod 6) [0..<6]) = {0..<6}"
proof -
  have six: "{0..<6::nat} = {0, 1, 2, 3, 4, 5}" by auto
  from assms consider "c = 0" | "c = 1" | "c = 2" | "c = 3" | "c = 4" | "c = 5"
    by linarith
  then show ?thesis
  proof cases
    case 1 then show ?thesis unfolding upt_6 six by simp
  next
    case 2 then show ?thesis unfolding upt_6 six by auto
  next
    case 3 then show ?thesis unfolding upt_6 six by auto
  next
    case 4 then show ?thesis unfolding upt_6 six by auto
  next
    case 5 then show ?thesis unfolding upt_6 six by auto
  next
    case 6 then show ?thesis unfolding upt_6 six by auto
  qed
qed

section \<open>The claims\<close>

subsection \<open>C1: ResetMatch\<close>

text \<open>
  C1 says that ResetMatch (opcode 0x05), from every prior state, yields the exact default
  state: timer 2:30, both scores 0, match inactive and both indicator flags false. The code
  does not do that. Its \<^verbatim>\<open>CMD_RESET_MATCH\<close> case assigns the timer, both scores and
  \<^verbatim>\<open>match_active\<close> and misses \<^verbatim>\<open>red_led_state\<close> and \<^verbatim>\<open>blue_led_state\<close>, which the
  initialisers set to false and which the \<^verbatim>\<open>CMD_STOP_MATCH\<close> case next to it clears.
  Here ResetMatch is dispatched in the state that StartMatch leaves, and both flags are
  still set afterwards.
\<close>

theorem reset_match_keeps_indicators_counterexample:
  "process_command CMD_RESET_MATCH 0 []
     (power_on\<lparr>match_active := True, red_led_state := True, blue_led_state := True\<rparr>) =
   Inr (power_on\<lparr>display_buffer := [0x3F, 0x5B, 0x4F, 0x3F, 0x3F, 0x3F],
                 red_led_state := True, blue_led_state := True\<rparr>)
   \<and> red_led_state (power_on\<lparr>display_buffer := [0x3F, 0x5B, 0x4F, 0x3F, 0x3F, 0x3F],
                 red_led_state := True, blue_led_state := True\<rparr>) \<noteq> False"
  by (simp add: process_command_reset_match update_display_buffer_raw_eq seg_read_le9 seg_read_gt9
      seg_patterns_def power_on_def)

text \<open>
  The same through \<^verbatim>\<open>main\<close>, from power on: a StartMatch frame and a ResetMatch frame
  arrive, and after the two turns of the loop both flags are set while the match is
  inactive.
\<close>

lemma start_then_reset_reachable:
  "main 2 (power_on\<lparr>rx := wire_frame CMD_START_MATCH [] (frame_checksum CMD_START_MATCH [])
                         @ wire_frame CMD_RESET_MATCH [] (frame_checksum CMD_RESET_MATCH [])\<rparr>) =
   Inr (power_on\<lparr>display_buffer := [0x3F, 0x5B, 0x4F, 0x3F, 0x3F, 0x3F],
                 red_led_state := True, blue_led_state := True\<rparr>)"
proof -
  let ?reset = "wire_frame CMD_RESET_MATCH [] (frame_checksum CMD_RESET_MATCH [])"
  let ?shown = "power_on\<lparr>display_buffer := [0x3F, 0x5B, 0x4F, 0x3F, 0x3F, 0x3F]\<rparr>"
  have e: "length ([] :: u8 list) \<le> 10" by simp
  have entry: "update_display_buffer_raw
      (power_on\<lparr>rx := wire_frame CMD_START_MATCH [] (frame_checksum CMD_START_MATCH []) @ ?reset\<rparr>) =
      ?shown\<lparr>rx := wire_frame CMD_START_MATCH [] (frame_checksum CMD_START_MATCH []) @ ?reset\<rparr>"
    by (simp add: update_display_buffer_raw_eq seg_read_le9 seg_read_gt9 seg_patterns_def power_on_def)
  have first: "main_loop_body
      (?shown\<lparr>rx := wire_frame CMD_START_MATCH [] (frame_checksum CMD_START_MATCH []) @ ?reset\<rparr>) =
      Inr (?shown\<lparr>rx := ?reset,
             match_active := True, red_led_state := True, blue_led_state := True,
             LATB0 := True, LATB1 := True\<rparr>)"
    using process_uart_command_wire_frame [OF e]
    by (simp add: main_loop_body_def process_command_start_match) (simp add: wire_frame_def)
  have second: "main_loop_body (?shown\<lparr>rx := ?reset,
             match_active := True, red_led_state := True, blue_led_state := True,
             LATB0 := True, LATB1 := True\<rparr>) =
      Inr (power_on\<lparr>display_buffer := [0x3F, 0x5B, 0x4F, 0x3F, 0x3F, 0x3F],
                 red_led_state := True, blue_led_state := True\<rparr>)"
    by (simp add: main_loop_body_def process_uart_command_def read_frame_def wire_frame_def
        frame_checksum_def xor_all_def process_command_reset_match update_display_buffer_raw_eq
        seg_read_le9 seg_read_gt9 seg_patterns_def power_on_def uart_read_def)
  show ?thesis
    by (simp add: main_def numeral_2_eq_2 entry first second)
qed

text \<open>
  The pins do not show the stale flags: they are driven from the flags only while the
  match is active, and StartMatch sets both flags. The main loop turn that handles a
  ResetMatch frame leaves both pins low whatever the flags hold.
\<close>

lemma reset_match_indicator_pins:
  "\<exists>st'. main_loop_body
           (st\<lparr>rx := wire_frame CMD_RESET_MATCH [] (frame_checksum CMD_RESET_MATCH []) @ rest\<rparr>)
         = Inr st' \<and> LATB0 st' = False \<and> LATB1 st' = False \<and> rx st' = rest"
proof -
  have "length ([] :: u8 list) \<le> 10" by simp
  from process_uart_command_wire_frame [OF this]
  show ?thesis
    by (simp add: main_loop_body_def wire_frame_def process_command_reset_match
        update_display_buffer_raw_eq)
qed

text \<open>
  What the \<^verbatim>\<open>CMD_RESET_MATCH\<close> case does, from every state and whatever the payload: it
  returns with the timer at 2:30, both scores 0 and the match inactive, and with both
  indicator flags as they were.
\<close>

lemma reset_match_defaults:
  "\<exists>st'. process_command CMD_RESET_MATCH data_len data st = Inr st' \<and>
     timer_minutes st' = 2 \<and> timer_seconds st' = 30 \<and> red_score st' = 0 \<and> blue_score st' = 0 \<and>
     match_active st' = False \<and>
     red_led_state st' = red_led_state st \<and> blue_led_state st' = blue_led_state st"
  by (simp add: process_command_reset_match update_display_buffer_raw_eq)

subsection \<open>C2: a well-formed frame is decoded to its command and data\<close>

text \<open>
  C2. For every byte sequence of the shape start byte 0xAA, opcode, length, that many
  payload bytes (at most 10), checksum = opcode XOR length XOR all payload bytes, end byte
  0x55, whatever follows it in the stream and whatever the state, one pass of the decoder
  consumes exactly the frame and yields the command with the transmitted opcode and
  payload; that command is the one \<open>process_uart_command\<close> hands to its switch.
\<close>

theorem decode_well_formed:
  assumes "length payload \<le> 10"
  shows "read_frame (st\<lparr>rx := wire_frame opcode payload (frame_checksum opcode payload) @ rest\<rparr>) =
           Inr (Command opcode (of_nat (length payload)) payload, st\<lparr>rx := rest\<rparr>)
       \<and> process_uart_command
           (st\<lparr>rx := wire_frame opcode payload (frame_checksum opcode payload) @ rest\<rparr>) =
           process_command opcode (of_nat (length payload)) payload (st\<lparr>rx := rest\<rparr>)"
  by (simp add: read_frame_wire_frame [OF assms] process_uart_command_wire_frame [OF assms])

theorem decode_well_formed_witness:
  "length [12, 34 :: u8] \<le> 10 \<and>
   read_frame (power_on\<lparr>rx := [0xAA, 0x01, 2, 12, 34, 0x2D, 0x55, 0xAA]\<rparr>) =
     Inr (Command 0x01 2 [12, 34], power_on\<lparr>rx := [0xAA]\<rparr>)"
proof -
  have l: "length [12, 34 :: u8] \<le> 10" by simp
  from decode_well_formed [OF l, where st = power_on and opcode = 1 and rest = "[0xAA]"] l
  show ?thesis
    by (simp add: wire_frame_def frame_checksum_def xor_all_def)
qed

subsection \<open>C3: a wrong checksum\<close>

text \<open>
  C3. For every well-formed frame (payload of at most 10 bytes) whose checksum byte is
  replaced by any other byte, the pass consumes the frame, hands no command to the switch,
  and returns the state with every variable, the display buffer and the transmitter
  unchanged: only the receiver has moved past the frame.
\<close>

theorem reject_bad_checksum:
  assumes "length payload \<le> 10" and "c \<noteq> frame_checksum opcode payload"
  shows "read_frame (st\<lparr>rx := wire_frame opcode payload c @ rest\<rparr>) = Inr (Dropped, st\<lparr>rx := rest\<rparr>)
       \<and> process_uart_command (st\<lparr>rx := wire_frame opcode payload c @ rest\<rparr>) = Inr (st\<lparr>rx := rest\<rparr>)"
  using assms(2)
  by (simp add: read_frame_wire_frame [OF assms(1)] process_uart_command_wire_frame [OF assms(1)])

theorem reject_bad_checksum_witness:
  "length [12, 34 :: u8] \<le> 10 \<and> (0x2C :: u8) \<noteq> frame_checksum 0x01 [12, 34] \<and>
   process_uart_command (power_on\<lparr>rx := [0xAA, 0x01, 2, 12, 34, 0x2C, 0x55, 0xAA]\<rparr>) =
     Inr (power_on\<lparr>rx := [0xAA]\<rparr>)"
proof -
  have l: "length [12, 34 :: u8] \<le> 10" by simp
  have c: "(0x2C :: u8) \<noteq> frame_checksum 0x01 [12, 34]"
    by (simp add: frame_checksum_def xor_all_def)
  from reject_bad_checksum [OF l c, where st = power_on and rest = "[0xAA]"] l c show ?thesis
    by (simp add: wire_frame_def)
qed

subsection \<open>C4: a length above ten\<close>

text \<open>
  C4. When the length byte is above 10, the pass returns right after the start byte, the
  opcode and the length byte: it reads none of the bytes that follow, leaves the state
  unchanged, and the next read of the receiver gets the byte after the length byte.
\<close>

theorem long_length_aborts:
  assumes "10 < len"
  shows "read_frame (st\<lparr>rx := START_BYTE # opcode # len # rest\<rparr>) = Inr (Dropped, st\<lparr>rx := rest\<rparr>)
       \<and> process_uart_command (st\<lparr>rx := START_BYTE # opcode # len # rest\<rparr>) = Inr (st\<lparr>rx := rest\<rparr>)"
  by (simp add: process_uart_command_def read_frame_long [OF assms])

theorem long_length_aborts_witness:
  "(10 :: u8) < 11 \<and>
   process_uart_command (power_on\<lparr>rx := [0xAA, 0x01, 11, 0xAA, 0x06, 0, 0x06, 0x55]\<rparr>) =
     Inr (power_on\<lparr>rx := [0xAA, 0x06, 0, 0x06, 0x55]\<rparr>)"
proof -
  have l: "(10 :: u8) < 11" by simp
  from long_length_aborts
    [OF l, where st = power_on and opcode = 1 and rest = "[0xAA, 0x06, 0, 0x06, 0x55]"] l
  show ?thesis by simp
qed

subsection \<open>C5: UpdateScore with 12 and 34\<close>

text \<open>
  C5. Dispatching UpdateScore (opcode 0x01) with payload 12, 34 returns, sets redScore = 12
  and blueScore = 34, and after the recomputation of the display buffer slot 4 (red tens)
  holds the table pattern of digit 1 and slot 5 (red ones) the pattern of digit 2. This
  holds from every prior state, whatever the timer holds: the only condition is that the
  display buffer is the six-entry array of the program.
\<close>

theorem update_score_12_34:
  assumes "wf_state st"
  shows "\<exists>st'. process_command CMD_UPDATE_SCORE 2 [12, 34] st = Inr st' \<and>
     red_score st' = 12 \<and> blue_score st' = 34 \<and>
     display_buffer st' ! 4 = seg_patterns ! 1 \<and> display_buffer st' ! 5 = seg_patterns ! 2"
  using assms
  by (simp add: process_command_update_score update_display_buffer_raw_eq seg_read_le9 seg_read_gt9
      wf_state_def)

theorem update_score_12_34_witness:
  "wf_state power_on \<and>
   (\<exists>st'. process_command CMD_UPDATE_SCORE 2 [12, 34] power_on = Inr st' \<and>
     red_score st' = 12 \<and> blue_score st' = 34 \<and>
     display_buffer st' ! 4 = 0x06 \<and> display_buffer st' ! 5 = 0x5B)"
proof -
  have wf: "wf_state power_on"
    by (simp add: wf_state_def power_on_def)
  from update_score_12_34 [OF wf] wf show ?thesis by (simp add: seg_patterns_def)
qed

text \<open>
  The same with a timer that has no two-digit rendering: after UpdateTimer 255:00 the
  reads for the minutes go past the table, and UpdateScore still leaves the red digits
  right.
\<close>

lemma update_score_after_long_timer:
  "\<exists>st'. process_command CMD_UPDATE_SCORE 2 [12, 34] (power_on\<lparr>timer_minutes := 255\<rparr>) = Inr st' \<and>
     timer_minutes st' = 255 \<and> red_score st' = 12 \<and> blue_score st' = 34 \<and>
     display_buffer st' = [0xFF, 0x6D, 0x4F, 0x3F, 0x06, 0x5B]"
  by (simp add: process_command_update_score update_display_buffer_raw_eq seg_read_le9 seg_read_gt9
      seg_patterns_def power_on_def)

subsection \<open>C6: Ping\<close>

text \<open>
  C6. Dispatching Ping (opcode 0x06) writes the three bytes 0xAA, 0xCC, 0x55, in that
  order, to the transmitter and changes nothing else: every variable and every entry of
  the display buffer is as before. The same holds for the pass that receives a Ping frame,
  which also moves the receiver past the frame.
\<close>

theorem ping_acknowledgement:
  "process_command CMD_PING data_len data st = Inr (st\<lparr>tx := tx st @ [0xAA, 0xCC, 0x55]\<rparr>)
   \<and> process_uart_command (st\<lparr>rx := wire_frame CMD_PING [] (frame_checksum CMD_PING []) @ rest\<rparr>)
       = Inr (st\<lparr>rx := rest, tx := tx st @ [0xAA, 0xCC, 0x55]\<rparr>)"
proof -
  have "length ([] :: u8 list) \<le> 10" by simp
  from process_uart_command_wire_frame [OF this] show ?thesis
    by (simp add: process_command_ping)
qed

subsection \<open>C7: SetIndicator with another selector\<close>

text \<open>
  C7. Dispatching SetIndicator (opcode 0x07) with a first payload byte that is neither 1
  nor 2 changes nothing: both indicator flags and every other part of the state are as
  before, whatever the length byte and the rest of the payload.
\<close>

theorem set_led_other_selector:
  assumes "sel \<noteq> 1" and "sel \<noteq> 2"
  shows "process_command CMD_SET_LED data_len (sel # others) st = Inr st"
  using assms by (simp add: process_command_set_led)

theorem set_led_other_selector_witness:
  "(3::u8) \<noteq> 1 \<and> (3::u8) \<noteq> 2 \<and> process_command CMD_SET_LED 2 [3, 1] power_on = Inr power_on"
proof -
  have a: "(3::u8) \<noteq> 1" and b: "(3::u8) \<noteq> 2" by simp_all
  from set_led_other_selector [OF a b, of 2 "[1]" power_on] a b show ?thesis by simp
qed

subsection \<open>C8: six ticks of the multiplexer\<close>

text \<open>
  C8. From any state with \<^verbatim>\<open>current_digit\<close> below 6, six ticks in a row all return; the
  \<open>k\<close>-th of them (from 0) leaves exactly the select line of digit
  \<open>(current_digit + k) mod 6\<close> enabled and that digit's buffer entry on the segment lines,
  so the six digits are enabled once each, in increasing cyclic order; and
  \<^verbatim>\<open>current_digit\<close> is below 6 after every tick.
\<close>

theorem multiplexer_six_ticks:
  assumes "current_digit st < 6" and "wf_state st"
  shows "\<exists>sts. run_ticks 6 st = Inr sts \<and>
     map (\<lambda>s. enabled_digits (LATD s)) sts =
       map (\<lambda>k. [(unat (current_digit st) + k) mod 6]) [0..<6] \<and>
     map LATC sts = map (\<lambda>k. display_buffer st ! ((unat (current_digit st) + k) mod 6)) [0..<6] \<and>
     map (\<lambda>s. unat (current_digit s)) sts =
       map (\<lambda>k. (unat (current_digit st) + k + 1) mod 6) [0..<6] \<and>
     list_all (\<lambda>s. current_digit s < 6) sts \<and>
     distinct (concat (map (\<lambda>s. enabled_digits (LATD s)) sts)) \<and>
     set (concat (map (\<lambda>s. enabled_digits (LATD s)) sts)) = {0..<6}"
proof -
  let ?c = "unat (current_digit st)"
  from assms(1) have c: "?c < 6" by (simp add: word_less_nat_alt)
  from run_ticks_cycle [OF assms, of 6] obtain sts where
    r: "run_ticks 6 st = Inr sts" and len: "length sts = 6" and
    each: "\<And>k. k < 6 \<Longrightarrow> LATD (sts ! k) = NOT (push_bit ((?c + k) mod 6) 1) \<and>
             LATC (sts ! k) = display_buffer st ! ((?c + k) mod 6) \<and>
             unat (current_digit (sts ! k)) = (?c + k + 1) mod 6"
    by blast
  have sel: "enabled_digits (LATD (sts ! k)) = [(?c + k) mod 6]" if "k < 6" for k
  proof -
    from each [OF that] have "LATD (sts ! k) = NOT (push_bit ((?c + k) mod 6) 1)" by blast
    moreover have "(?c + k) mod 6 < 6" by simp
    ultimately show ?thesis by (simp only: enabled_digits_select)
  qed
  have en: "map (\<lambda>s. enabled_digits (LATD s)) sts = map (\<lambda>k. [(?c + k) mod 6]) [0..<6]"
    using len sel by (intro nth_equalityI) simp_all
  have segs: "map LATC sts = map (\<lambda>k. display_buffer st ! ((?c + k) mod 6)) [0..<6]"
    using len each by (intro nth_equalityI) simp_all
  have nxt: "map (\<lambda>s. unat (current_digit s)) sts = map (\<lambda>k. (?c + k + 1) mod 6) [0..<6]"
    using len each by (intro nth_equalityI) simp_all
  have bound: "list_all (\<lambda>s. current_digit s < 6) sts"
    unfolding list_all_length
  proof (intro allI impI)
    fix k assume "k < length sts"
    with len each have "unat (current_digit (sts ! k)) = (?c + k + 1) mod 6" by simp
    then show "current_digit (sts ! k) < 6" by (simp add: word_less_nat_alt)
  qed
  have "concat (map (\<lambda>k. [(?c + k) mod 6]) [0..<6]) = map (\<lambda>k. (?c + k) mod 6) [0..<6]"
    unfolding upt_6 by simp
  with en cyclic_order_covers [OF c]
  have once: "distinct (concat (map (\<lambda>s. enabled_digits (LATD s)) sts)) \<and>
     set (concat (map (\<lambda>s. enabled_digits (LATD s)) sts)) = {0..<6}"
    by simp
  from r en segs nxt bound once show ?thesis by blast
qed

theorem multiplexer_six_ticks_witness:
  "current_digit (power_on\<lparr>current_digit := 4\<rparr>) < 6 \<and> wf_state (power_on\<lparr>current_digit := 4\<rparr>) \<and>
   (\<exists>sts. run_ticks 6 (power_on\<lparr>current_digit := 4\<rparr>) = Inr sts \<and>
      map (\<lambda>s. enabled_digits (LATD s)) sts = [[4], [5], [0], [1], [2], [3]] \<and>
      map (\<lambda>s. unat (current_digit s)) sts = [5, 0, 1, 2, 3, 4])"
proof -
  let ?s = "power_on\<lparr>current_digit := 4\<rparr>"
  have a: "current_digit ?s < 6" by simp
  have b: "wf_state ?s" by (simp add: wf_state_def power_on_def)
  have u: "unat (current_digit ?s) = 4" by simp
  from multiplexer_six_ticks [OF a b] obtain sts where
    r: "run_ticks 6 ?s = Inr sts" and
    e: "map (\<lambda>s. enabled_digits (LATD s)) sts =
          map (\<lambda>k. [(unat (current_digit ?s) + k) mod 6]) [0..<6]" and
    n: "map (\<lambda>s. unat (current_digit s)) sts =
          map (\<lambda>k. (unat (current_digit ?s) + k + 1) mod 6) [0..<6]"
    by (elim exE conjE)
  from e have e': "map (\<lambda>s. enabled_digits (LATD s)) sts = [[4], [5], [0], [1], [2], [3]]"
    unfolding u upt_6 by simp
  from n have n': "map (\<lambda>s. unat (current_digit s)) sts = [5, 0, 1, 2, 3, 4]"
    unfolding u upt_6 by simp
  from r e' n' have "\<exists>sts. run_ticks 6 ?s = Inr sts \<and>
      map (\<lambda>s. enabled_digits (LATD s)) sts = [[4], [5], [0], [1], [2], [3]] \<and>
      map (\<lambda>s. unat (current_digit s)) sts = [5, 0, 1, 2, 3, 4]"
    by (intro exI conjI)
  with a b show ?thesis by (intro conjI)
qed

subsection \<open>C9: the indices into the segment table\<close>

text \<open>
  C9. In every state with timerMinutes, timerSeconds and redScore at most 99, each of the
  six indices that the recomputation of the display buffer computes is at most 9 and the
  recomputation returns, no table read being out of range; and there is a state with
  redScore above 99 where an index is above 9 and the read of the table is out of range.
\<close>

theorem seg_index_range:
  "(timer_minutes st \<le> 99 \<and> timer_seconds st \<le> 99 \<and> red_score st \<le> 99 \<longrightarrow>
      list_all (\<lambda>i. i \<le> 9) (display_indices st) \<and> (\<exists>st'. update_display_buffer st = Inr st'))
   \<and> (\<exists>bad. 99 < red_score bad \<and> \<not> list_all (\<lambda>i. i \<le> 9) (display_indices bad) \<and>
         update_display_buffer bad = Inl SegIndex)"
proof (intro conjI impI)
  assume a: "timer_minutes st \<le> 99 \<and> timer_seconds st \<le> 99 \<and> red_score st \<le> 99"
  then show "list_all (\<lambda>i. i \<le> 9) (display_indices st)"
    by (simp add: display_indices_def div10_le9 mod10_le9)
  from a have "displayable st" by (simp add: displayable_def)
  from update_display_buffer_displayable [OF this]
  show "\<exists>st'. update_display_buffer st = Inr st'" by blast
next
  let ?bad = "power_on\<lparr>red_score := 100\<rparr>"
  have "\<not> displayable ?bad" by (simp add: displayable_def)
  from update_display_buffer_not_displayable [OF this]
  have "99 < red_score ?bad \<and> \<not> list_all (\<lambda>i. i \<le> 9) (display_indices ?bad) \<and>
         update_display_buffer ?bad = Inl SegIndex"
    by (simp add: display_indices_def)
  then show "\<exists>bad. 99 < red_score bad \<and> \<not> list_all (\<lambda>i. i \<le> 9) (display_indices bad) \<and>
         update_display_buffer bad = Inl SegIndex" ..
qed

theorem seg_index_range_witness:
  "timer_minutes power_on \<le> 99 \<and> timer_seconds power_on \<le> 99 \<and> red_score power_on \<le> 99 \<and>
   list_all (\<lambda>i. i \<le> 9) (display_indices power_on) \<and>
   update_display_buffer power_on =
     Inr (power_on\<lparr>display_buffer := [0x3F, 0x5B, 0x4F, 0x3F, 0x3F, 0x3F]\<rparr>)"
proof -
  have a: "timer_minutes power_on \<le> 99 \<and> timer_seconds power_on \<le> 99 \<and> red_score power_on \<le> 99"
    by (simp add: power_on_def)
  from seg_index_range [of power_on] a
  have "list_all (\<lambda>i. i \<le> 9) (display_indices power_on)" by blast
  moreover have "update_display_buffer power_on =
      Inr (power_on\<lparr>display_buffer := [0x3F, 0x5B, 0x4F, 0x3F, 0x3F, 0x3F]\<rparr>)"
    by (simp add: update_display_buffer_def set_digit_def seg_at_def seg_patterns_def power_on_def)
  ultimately show ?thesis using a by blast
qed

subsection \<open>C10: payloads shorter than two bytes\<close>

text \<open>
  C10. Dispatching UpdateScore (0x01), UpdateTimer (0x02) or SetIndicator (0x07) with a
  payload of 0 bytes or 1 byte changes nothing: every variable and every entry of the
  display buffer is as before, and nothing is sent. The pass that receives such a frame
  consumes it and changes nothing but the receiver.
\<close>

theorem short_payload_noop:
  assumes "cmd = CMD_UPDATE_SCORE \<or> cmd = CMD_UPDATE_TIMER \<or> cmd = CMD_SET_LED"
    and "length payload < 2"
  shows "process_command cmd (of_nat (length payload)) payload st = Inr st
    \<and> process_uart_command (st\<lparr>rx := wire_frame cmd payload (frame_checksum cmd payload) @ rest\<rparr>)
        = Inr (st\<lparr>rx := rest\<rparr>)"
proof -
  from assms(2) have le: "length payload \<le> 10" by simp
  from assms(2) have small: "\<not> 2 \<le> (of_nat (length payload) :: u8)"
    using short_length_u8(1) [OF le] by (simp add: word_le_nat_alt)
  have pc: "process_command cmd (of_nat (length payload)) payload s = Inr s" for s
    using assms(1) small
    by (auto simp add: process_command_update_score process_command_update_timer
        process_command_set_led)
  show ?thesis
    by (simp only: process_uart_command_wire_frame [OF le] pc if_True simp_thms)
qed

theorem short_payload_noop_witness:
  "((1::u8) = CMD_UPDATE_SCORE \<or> (1::u8) = CMD_UPDATE_TIMER \<or> (1::u8) = CMD_SET_LED) \<and>
   length [12 :: u8] < 2 \<and>
   process_command CMD_UPDATE_SCORE 1 [12] power_on = Inr power_on \<and>
   process_uart_command (power_on\<lparr>rx := [0xAA, 0x01, 1, 12, 0x0C, 0x55, 0xAA]\<rparr>) =
     Inr (power_on\<lparr>rx := [0xAA]\<rparr>)"
proof -
  have a: "(1::u8) = CMD_UPDATE_SCORE \<or> (1::u8) = CMD_UPDATE_TIMER \<or> (1::u8) = CMD_SET_LED"
    by simp
  have l: "length [12 :: u8] < 2" by simp
  from short_payload_noop [OF a l, where st = power_on and rest = "[0xAA]"] a l show ?thesis
    by (simp add: wire_frame_def frame_checksum_def xor_all_def)
qed

end
